theory Spec2Isabelle
  imports Complex_Main "HOL-Library.Multiset"
begin

text \<open>
  Inspektio is a browser extension that lists and edits the cookies and the page storage
  (\<open>localStorage\<close>, \<open>sessionStorage\<close>) of the active tab. This theory models its storage
  service (\<open>services/storage.service.ts\<close>), its cookie adapter (\<open>adapters/cookies.ts\<close>)
  and the filtering and sorting of its cookie dashboard, and proves what the
  specification says of them. The browser and the JavaScript runtime are parameters of
  the model: a state the operations read and change, and a record of the functions the
  code calls but does not define.
\<close>

section \<open>Values of the host language\<close>

text \<open>
  A string of the program is a \<^typ>\<open>string\<close>; one \<^typ>\<open>char\<close> stands for one code unit.
  An \<open>Error\<close> made by the program is kept with its message; \<open>SyntaxError\<close> and
  \<open>TypeError\<close> are the ones the runtime throws. A settled promise is a value of
  \<open>error + 'a\<close>: \<open>Inl\<close> is a rejection, \<open>Inr\<close> a fulfilment.
\<close>

datatype error = Error string | SyntaxError | TypeError

type_synonym 'a promise = "error + 'a"

text \<open>
  The values \<open>JSON.parse\<close> can return. A number is kept as the text that \<open>String\<close>
  prints for it, which is all the program ever asks of it. The members of an object are
  listed in the order \<open>Object.entries\<close> reports them.
\<close>

datatype jsval =
    JNull
  | JBool bool
  | JNum string
  | JStr string
  | JArr "jsval list"
  | JObj "(string \<times> jsval) list"

text \<open>
  What the program takes from the JavaScript runtime and does not define itself:
  \<open>String.prototype.localeCompare\<close>, \<open>String.prototype.toLowerCase\<close>,
  \<open>JSON.parse\<close> (\<open>None\<close> is its \<open>SyntaxError\<close>) and \<open>JSON.stringify\<close> with
  indentation 2, which the program applies only to an object whose values are strings:
  the argument lists that object's members in the order they are enumerated.
\<close>

record host =
  localeCompare :: "string \<Rightarrow> string \<Rightarrow> int"
  toLowerCase :: "string \<Rightarrow> string"
  JSON_parse :: "string \<Rightarrow> jsval option"
  JSON_stringify :: "(string \<times> string) list \<Rightarrow> string"

subsection \<open>\<open>Array.prototype.sort\<close>\<close>

text \<open>
  \<open>xs.sort(cmp)\<close> is stable, and for a consistent comparator its result is fixed by the
  language: the elements in ascending order, equal ones in their original order. The
  model computes that list by insertion. For an inconsistent comparator the order is
  the engine's own; no property below is about such a sort.
\<close>

fun insort_cmp :: "('a \<Rightarrow> 'a \<Rightarrow> int) \<Rightarrow> 'a \<Rightarrow> 'a list \<Rightarrow> 'a list" where
  "insort_cmp cmp x [] = [x]"
| "insort_cmp cmp x (y # ys) =
     (if cmp x y \<le> 0 then x # y # ys else y # insort_cmp cmp x ys)"

fun js_sort :: "('a \<Rightarrow> 'a \<Rightarrow> int) \<Rightarrow> 'a list \<Rightarrow> 'a list" where
  "js_sort cmp [] = []"
| "js_sort cmp (x # xs) = insort_cmp cmp x (js_sort cmp xs)"

section \<open>Page storage\<close>

datatype StorageType = Local | Session

record StorageEntry =
  key :: string
  "value" :: string

text \<open>
  A \<open>Storage\<close> object (\<open>localStorage\<close>, \<open>sessionStorage\<close>): its items in the order
  \<open>key(i)\<close> enumerates them.
\<close>

type_synonym storage = "(string \<times> string) list"

definition storage_length :: "storage \<Rightarrow> nat" where
  "storage_length st = length st"

definition storage_key :: "storage \<Rightarrow> nat \<Rightarrow> string option" where
  "storage_key st i = (if i < length st then Some (fst (st ! i)) else None)"

definition getItem :: "storage \<Rightarrow> string \<Rightarrow> string option" where
  "getItem st k = map_of st k"

fun setItem :: "storage \<Rightarrow> string \<Rightarrow> string \<Rightarrow> storage" where
  "setItem [] k v = [(k, v)]"
| "setItem ((k', v') # st) k v =
     (if k' = k then (k, v) # st else (k', v') # setItem st k v)"

definition removeItem :: "storage \<Rightarrow> string \<Rightarrow> storage" where
  "removeItem st k = filter (\<lambda>kv. fst kv \<noteq> k) st"

definition clear :: "storage \<Rightarrow> storage" where
  "clear st = []"

record page =
  localStorage :: storage
  sessionStorage :: storage

text \<open>\<open>type === "local" ? localStorage : sessionStorage\<close>, for reading and for writing.\<close>

definition storageOf :: "StorageType \<Rightarrow> page \<Rightarrow> storage" where
  "storageOf type p = (if type = Local then localStorage p else sessionStorage p)"

definition withStorage :: "StorageType \<Rightarrow> (storage \<Rightarrow> storage) \<Rightarrow> page \<Rightarrow> page" where
  "withStorage type f p =
     (if type = Local then p\<lparr>localStorage := f (localStorage p)\<rparr>
      else p\<lparr>sessionStorage := f (sessionStorage p)\<rparr>)"

section \<open>The browser seen by the storage service\<close>

record tab =
  tab_id :: "int option"

datatype call = TabsQuery | ExecuteScript int

text \<open>
  \<open>activeTabs\<close> is what \<open>chrome.tabs.query({active: true, currentWindow: true})\<close> hands
  to its callback. \<open>pages t\<close> is the page a function injected into tab \<open>t\<close> runs in, and
  \<open>None\<close> when the injection fails; the callback of \<open>executeScript\<close> then runs with no
  results. \<open>calls\<close> records every call of the two browser functions, in order.
\<close>

record browser =
  activeTabs :: "tab list"
  pages :: "int \<Rightarrow> page option"
  calls :: "call list"

definition tabs_query :: "browser \<Rightarrow> tab list \<times> browser" where
  "tabs_query b = (activeTabs b, b\<lparr>calls := calls b @ [TabsQuery]\<rparr>)"

definition executeScript ::
  "int \<Rightarrow> (page \<Rightarrow> 'r \<times> page) \<Rightarrow> browser \<Rightarrow> 'r option \<times> browser" where
  "executeScript tabId func b =
     (let b1 = b\<lparr>calls := calls b @ [ExecuteScript tabId]\<rparr> in
      case pages b tabId of
        None \<Rightarrow> (None, b1)
      | Some p \<Rightarrow>
          (case func p of (r, p') \<Rightarrow> (Some r, b1\<lparr>pages := (pages b)(tabId := Some p')\<rparr>)))"

text \<open>\<open>tabs[0]?.id\<close> when it is truthy: there is a first tab, it has an id, the id is not 0.\<close>

definition firstTabId :: "tab list \<Rightarrow> int option" where
  "firstTabId tabs =
     (case tabs of
        [] \<Rightarrow> None
      | t # _ \<Rightarrow> (case tab_id t of None \<Rightarrow> None | Some i \<Rightarrow> if i = 0 then None else Some i))"

section \<open>StorageService\<close>

subsection \<open>The injected functions\<close>

text \<open>The loop \<open>for (let i = 0; i < storage.length; i++)\<close> of the reader.\<close>

function readLoop :: "storage \<Rightarrow> nat \<Rightarrow> StorageEntry list \<Rightarrow> StorageEntry list" where
  "readLoop st i entries =
     (if i < storage_length st then
        (case storage_key st i of
           None \<Rightarrow> readLoop st (Suc i) entries
         | Some k \<Rightarrow>
             readLoop st (Suc i)
               (entries @ [\<lparr>key = k,
                  value = (case getItem st k of None \<Rightarrow> [] | Some v \<Rightarrow> if v = [] then [] else v)\<rparr>]))
      else entries)"
  by pat_completeness auto
termination
  by (relation "measure (\<lambda>(st, i, entries). storage_length st - i)") auto

declare readLoop.simps [simp del]

definition readFunc :: "host \<Rightarrow> StorageType \<Rightarrow> page \<Rightarrow> StorageEntry list \<times> page" where
  "readFunc h type p =
     (js_sort (\<lambda>a b. localeCompare h (key a) (key b)) (readLoop (storageOf type p) 0 []), p)"

definition setFunc :: "StorageType \<Rightarrow> string \<Rightarrow> string \<Rightarrow> page \<Rightarrow> bool \<times> page" where
  "setFunc type k v p = (True, withStorage type (\<lambda>st. setItem st k v) p)"

definition removeFunc :: "StorageType \<Rightarrow> string \<Rightarrow> page \<Rightarrow> bool \<times> page" where
  "removeFunc type k p = (True, withStorage type (\<lambda>st. removeItem st k) p)"

definition clearFunc :: "StorageType \<Rightarrow> page \<Rightarrow> bool \<times> page" where
  "clearFunc type p = (True, withStorage type clear p)"

subsection \<open>The operations\<close>

definition getAllEntries ::
  "host \<Rightarrow> StorageType \<Rightarrow> browser \<Rightarrow> StorageEntry list promise \<times> browser" where
  "getAllEntries h storageType b =
     (case tabs_query b of (tabs, b1) \<Rightarrow>
        (case firstTabId tabs of
           None \<Rightarrow> (Inr [], b1)
         | Some tid \<Rightarrow>
             (case executeScript tid (readFunc h storageType) b1 of (results, b2) \<Rightarrow>
                (Inr (case results of None \<Rightarrow> [] | Some r \<Rightarrow> r), b2))))"

definition setEntry ::
  "StorageType \<Rightarrow> string \<Rightarrow> string \<Rightarrow> browser \<Rightarrow> unit promise \<times> browser" where
  "setEntry storageType k v b =
     (case tabs_query b of (tabs, b1) \<Rightarrow>
        (case firstTabId tabs of
           None \<Rightarrow> (Inl (Error ''No active tab found''), b1)
         | Some tid \<Rightarrow>
             (case executeScript tid (setFunc storageType k v) b1 of (results, b2) \<Rightarrow>
                (Inr (), b2))))"

definition deleteEntry ::
  "StorageType \<Rightarrow> string \<Rightarrow> browser \<Rightarrow> unit promise \<times> browser" where
  "deleteEntry storageType k b =
     (case tabs_query b of (tabs, b1) \<Rightarrow>
        (case firstTabId tabs of
           None \<Rightarrow> (Inl (Error ''No active tab found''), b1)
         | Some tid \<Rightarrow>
             (case executeScript tid (removeFunc storageType k) b1 of (results, b2) \<Rightarrow>
                (Inr (), b2))))"

definition clearAll :: "StorageType \<Rightarrow> browser \<Rightarrow> unit promise \<times> browser" where
  "clearAll storageType b =
     (case tabs_query b of (tabs, b1) \<Rightarrow>
        (case firstTabId tabs of
           None \<Rightarrow> (Inl (Error ''No active tab found''), b1)
         | Some tid \<Rightarrow>
             (case executeScript tid (clearFunc storageType) b1 of (results, b2) \<Rightarrow>
                (Inr (), b2))))"


subsection \<open>Plain objects, \<open>Object.entries\<close> and \<open>String\<close>\<close>

text \<open>
  The own properties of an object created by \<open>{}\<close> whose values are strings, in the
  order they were created. \<open>acc[k] = v\<close> creates or overwrites the own property \<open>k\<close>,
  except for \<open>k = "__proto__"\<close>: that assignment reaches the setter of
  \<open>Object.prototype\<close>, which ignores a string and leaves the object as it was.
\<close>

type_synonym jsrecord = "(string \<times> string) list"

fun defineOwn :: "jsrecord \<Rightarrow> string \<Rightarrow> string \<Rightarrow> jsrecord" where
  "defineOwn [] k v = [(k, v)]"
| "defineOwn ((k', v') # ps) k v =
     (if k' = k then (k, v) # ps else (k', v') # defineOwn ps k v)"

definition obj_assign :: "jsrecord \<Rightarrow> string \<Rightarrow> string \<Rightarrow> jsrecord" where
  "obj_assign acc k v = (if k = ''__proto__'' then acc else defineOwn acc k v)"

text \<open>
  Own keys are enumerated with the array indices first, in ascending numeric order, then
  the other keys in creation order. An array index is a canonical decimal numeral below
  \<open>2^32 - 1\<close>.
\<close>

definition isDigit :: "char \<Rightarrow> bool" where
  "isDigit c = (48 \<le> (of_char c :: nat) \<and> (of_char c :: nat) \<le> 57)"

definition decimal :: "string \<Rightarrow> nat" where
  "decimal s = foldl (\<lambda>n c. 10 * n + (of_char c - 48)) 0 s"

definition isArrayIndex :: "string \<Rightarrow> bool" where
  "isArrayIndex s =
     (s \<noteq> [] \<and> list_all isDigit s \<and> (s = ''0'' \<or> hd s \<noteq> CHR ''0'') \<and> decimal s < 4294967295)"

definition ownEntries :: "jsrecord \<Rightarrow> (string \<times> string) list" where
  "ownEntries obj =
     sort_key (\<lambda>kv. decimal (fst kv)) (filter (\<lambda>kv. isArrayIndex (fst kv)) obj)
     @ filter (\<lambda>kv. \<not> isArrayIndex (fst kv)) obj"

definition recordVal :: "jsrecord \<Rightarrow> jsval" where
  "recordVal obj = JObj (map (\<lambda>kv. (fst kv, JStr (snd kv))) (ownEntries obj))"

fun showNat :: "nat \<Rightarrow> string" where
  "showNat n =
     (if n < 10 then [char_of (48 + n)]
      else showNat (n div 10) @ [char_of (48 + n mod 10)])"

fun indexed :: "nat \<Rightarrow> 'a list \<Rightarrow> (string \<times> 'a) list" where
  "indexed i [] = []"
| "indexed i (x # xs) = (showNat i, x) # indexed (Suc i) xs"

text \<open>
  \<open>Object.entries(data)\<close>: \<open>null\<close> throws, a boolean or a number has no entries, a
  string has one entry for each code unit, an array one for each element.
\<close>

definition Object_entries :: "jsval \<Rightarrow> error + (string \<times> jsval) list" where
  "Object_entries data =
     (case data of
        JNull \<Rightarrow> Inl TypeError
      | JBool _ \<Rightarrow> Inr []
      | JNum _ \<Rightarrow> Inr []
      | JStr s \<Rightarrow> Inr (indexed 0 (map (\<lambda>c. JStr [c]) s))
      | JArr vs \<Rightarrow> Inr (indexed 0 vs)
      | JObj es \<Rightarrow> Inr es)"

fun joinWith :: "string \<Rightarrow> string list \<Rightarrow> string" where
  "joinWith sep [] = []"
| "joinWith sep [s] = s"
| "joinWith sep (s # t # ss) = s @ sep @ joinWith sep (t # ss)"

text \<open>
  \<open>String(value)\<close>. An array prints its elements separated by commas, \<open>null\<close> among
  them as the empty string; an object prints as \<open>[object Object]\<close>.
\<close>

fun js_String :: "jsval \<Rightarrow> string" where
  "js_String JNull = ''null''"
| "js_String (JBool b) = (if b then ''true'' else ''false'')"
| "js_String (JNum s) = s"
| "js_String (JStr s) = s"
| "js_String (JArr vs) =
     joinWith '','' (map (\<lambda>v. if v = JNull then [] else js_String v) vs)"
| "js_String (JObj es) = ''[object Object]''"

subsection \<open>Export and import\<close>

definition exportData :: "StorageEntry list \<Rightarrow> jsrecord" where
  "exportData entries = foldl (\<lambda>acc entry. obj_assign acc (key entry) (value entry)) [] entries"

definition exportEntries :: "host \<Rightarrow> StorageType \<Rightarrow> browser \<Rightarrow> string promise \<times> browser" where
  "exportEntries h storageType b =
     (case getAllEntries h storageType b of
        (Inl e, b1) \<Rightarrow> (Inl e, b1)
      | (Inr entries, b1) \<Rightarrow> (Inr (JSON_stringify h (ownEntries (exportData entries))), b1))"

text \<open>The loop \<open>for (const [key, value] of Object.entries(data))\<close>; a rejected
  \<open>setEntry\<close> ends it.\<close>

fun writeAll :: "StorageType \<Rightarrow> (string \<times> jsval) list \<Rightarrow> browser \<Rightarrow> unit promise \<times> browser" where
  "writeAll storageType [] b = (Inr (), b)"
| "writeAll storageType ((k, v) # rest) b =
     (case setEntry storageType k (js_String v) b of
        (Inl e, b1) \<Rightarrow> (Inl e, b1)
      | (Inr u, b1) \<Rightarrow> writeAll storageType rest b1)"

text \<open>The body of the \<open>try\<close> block, with what it throws.\<close>

definition importBody :: "host \<Rightarrow> StorageType \<Rightarrow> string \<Rightarrow> browser \<Rightarrow> unit promise \<times> browser" where
  "importBody h storageType jsonData b =
     (case JSON_parse h jsonData of
        None \<Rightarrow> (Inl SyntaxError, b)
      | Some data \<Rightarrow>
          (case Object_entries data of
             Inl e \<Rightarrow> (Inl e, b)
           | Inr es \<Rightarrow> writeAll storageType es b))"

text \<open>\<open>catch (error) { throw new Error("Invalid JSON format") }\<close>.\<close>

definition importEntries :: "host \<Rightarrow> StorageType \<Rightarrow> string \<Rightarrow> browser \<Rightarrow> unit promise \<times> browser" where
  "importEntries h storageType jsonData b =
     (case importBody h storageType jsonData b of
        (Inl e, b1) \<Rightarrow> (Inl (Error ''Invalid JSON format''), b1)
      | (Inr u, b1) \<Rightarrow> (Inr u, b1))"


section \<open>BrowserCookieAdapter\<close>

datatype sameSite = no_restriction | lax | strict

text \<open>A number of the program that is finite is a rational.\<close>

record cookie =
  name :: string
  "value" :: string
  domain :: string
  path :: string
  secure :: bool
  httpOnly :: bool
  sameSite :: sameSite
  expirationDate :: "rat option"
  hostOnly :: bool
  session :: bool
  storeId :: string

text \<open>\<open>BrowserCookieOptions & { domain: string }\<close>; an absent member is \<open>None\<close>.\<close>

record BrowserCookieOptions =
  o_url :: "string option"
  o_path :: "string option"
  o_domain :: string
  o_secure :: "bool option"
  o_httpOnly :: "bool option"
  o_expirationDate :: "rat option"
  o_sameSite :: "sameSite option"
  o_storeId :: "string option"

text \<open>The arguments of \<open>chrome.cookies.set\<close>, \<open>remove\<close> and \<open>getAll\<close>.\<close>

record set_details =
  d_name :: string
  d_value :: string
  d_url :: string
  d_path :: "string option"
  d_domain :: string
  d_secure :: "bool option"
  d_httpOnly :: "bool option"
  d_sameSite :: "sameSite option"
  d_expirationDate :: "rat option"
  d_storeId :: "string option"

record remove_details =
  r_name :: string
  r_url :: string

record getAll_details =
  g_domain :: "string option"

text \<open>
  The browser's cookie API, over a browser state \<open>'s\<close> that the adapter never looks into.
  Each call settles to a rejection or a result and leaves a new state.
\<close>

record 's cookies_api =
  api_getAll :: "getAll_details \<Rightarrow> 's \<Rightarrow> cookie list promise \<times> 's"
  api_set :: "set_details \<Rightarrow> 's \<Rightarrow> unit promise \<times> 's"
  api_remove :: "remove_details \<Rightarrow> 's \<Rightarrow> unit promise \<times> 's"

record infer_opts =
  io_domain :: string
  io_path :: "string option"
  io_secure :: "bool option"

text \<open>\<open>domain.replace(/^\./, "")\<close>.\<close>

definition stripLeadingDot :: "string \<Rightarrow> string" where
  "stripLeadingDot d = (case d of [] \<Rightarrow> [] | c # r \<Rightarrow> if c = CHR ''.'' then r else d)"

definition inferUrl :: "infer_opts \<Rightarrow> string" where
  "inferUrl opts =
     (let protocol = (if io_secure opts = Some True then ''https'' else ''http'');
          host = stripLeadingDot (io_domain opts);
          path = (case io_path opts of None \<Rightarrow> ''/'' | Some p \<Rightarrow> p)
      in protocol @ ''://'' @ host @ path)"

definition set_request :: "string \<Rightarrow> string \<Rightarrow> BrowserCookieOptions \<Rightarrow> set_details" where
  "set_request n v options =
     \<lparr>d_name = n, d_value = v,
      d_url = (case o_url options of
                 Some u \<Rightarrow> u
               | None \<Rightarrow> inferUrl \<lparr>io_domain = o_domain options, io_path = o_path options,
                                   io_secure = o_secure options\<rparr>),
      d_path = o_path options, d_domain = o_domain options, d_secure = o_secure options,
      d_httpOnly = o_httpOnly options, d_sameSite = o_sameSite options,
      d_expirationDate = o_expirationDate options, d_storeId = o_storeId options\<rparr>"

definition adapter_set ::
  "'s cookies_api \<Rightarrow> string \<Rightarrow> string \<Rightarrow> BrowserCookieOptions \<Rightarrow> 's \<Rightarrow> unit promise \<times> 's" where
  "adapter_set api n v options s =
     (case api_set api (set_request n v options) s of
        (Inl e, s1) \<Rightarrow> (Inl e, s1)
      | (Inr u, s1) \<Rightarrow> (Inr (), s1))"


text \<open>\<open>delete(name, domain, path = "/")\<close>; the path argument is \<open>None\<close> when it is left out.\<close>

definition delete_request :: "string \<Rightarrow> string \<Rightarrow> string option \<Rightarrow> remove_details" where
  "delete_request n dmn p =
     \<lparr>r_name = n,
      r_url = inferUrl \<lparr>io_domain = dmn,
                        io_path = Some (case p of None \<Rightarrow> ''/'' | Some q \<Rightarrow> q),
                        io_secure = None\<rparr>\<rparr>"

definition adapter_delete ::
  "'s cookies_api \<Rightarrow> string \<Rightarrow> string \<Rightarrow> string option \<Rightarrow> 's \<Rightarrow> unit promise \<times> 's" where
  "adapter_delete api n dmn p s =
     (case api_remove api (delete_request n dmn p) s of
        (Inl e, s1) \<Rightarrow> (Inl e, s1)
      | (Inr u, s1) \<Rightarrow> (Inr (), s1))"





text \<open>The loop of \<open>clear\<close>: one \<open>remove\<close> for each cookie; a rejected one ends it.\<close>

fun removeEach :: "'s cookies_api \<Rightarrow> cookie list \<Rightarrow> 's \<Rightarrow> unit promise \<times> 's" where
  "removeEach api [] s = (Inr (), s)"
| "removeEach api (c # cs) s =
     (case api_remove api
             \<lparr>r_name = name c,
              r_url = inferUrl \<lparr>io_domain = domain c, io_path = Some (path c),
                                io_secure = Some (secure c)\<rparr>\<rparr> s of
        (Inl e, s1) \<Rightarrow> (Inl e, s1)
      | (Inr u, s1) \<Rightarrow> removeEach api cs s1)"


subsection \<open>\<open>all\<close> and \<open>filter\<close>: grouping by domain\<close>







section \<open>The cookie dashboard\<close>

subsection \<open>Comparing strings\<close>

text \<open>\<open>a < b\<close> on two strings: the first differing code unit decides, a proper prefix
  is smaller.\<close>

fun str_less :: "string \<Rightarrow> string \<Rightarrow> bool" where
  "str_less [] [] = False"
| "str_less [] (y # ys) = True"
| "str_less (x # xs) [] = False"
| "str_less (x # xs) (y # ys) =
     ((of_char x :: nat) < of_char y \<or> (x = y \<and> str_less xs ys))"

text \<open>The comparison of \<open>Array.prototype.sort\<close> with no comparator, on strings.\<close>

definition defaultCompare :: "string \<Rightarrow> string \<Rightarrow> int" where
  "defaultCompare a b = (if str_less a b then -1 else if str_less b a then 1 else 0)"

fun startsWith :: "string \<Rightarrow> string \<Rightarrow> bool" where
  "startsWith s [] = True"
| "startsWith [] (c # t) = False"
| "startsWith (d # s) (c # t) = (d = c \<and> startsWith s t)"

fun "includes" :: "string \<Rightarrow> string \<Rightarrow> bool" where
  "includes [] t = (t = [])"
| "includes (d # s) t = (startsWith (d # s) t \<or> includes s t)"

subsection \<open>The derived list of domains\<close>

text \<open>\<open>[...new Set(xs)]\<close>: each value once, at its first position.\<close>

fun uniq :: "'a list \<Rightarrow> 'a list" where
  "uniq [] = []"
| "uniq (x # xs) = x # filter (\<lambda>y. y \<noteq> x) (uniq xs)"

text \<open>The arrow function \<open>() => { ... return ["all", ...uniqueDomains] }\<close>, were it called
  when the cookies are \<open>cookies\<close>.\<close>

definition domainsFunction :: "cookie list \<Rightarrow> string list" where
  "domainsFunction cookies =
     (let uniqueDomains = js_sort defaultCompare (uniq (map domain cookies))
      in ''all'' # uniqueDomains)"

text \<open>
  What a template can be given to iterate over: an array, or a function of no
  parameters. \<open>{#each xs as x}\<close> iterates over \<open>xs\<close> itself when it is an array, and
  otherwise over \<open>Array.from(xs)\<close>: a function is not iterable, and as an array-like
  object its length is the number of its parameters, here 0, so there is nothing to
  iterate over.
\<close>

datatype each_source = Array "string list" | Function0 "unit \<Rightarrow> string list"

definition each_items :: "each_source \<Rightarrow> string list" where
  "each_items src = (case src of Array xs \<Rightarrow> xs | Function0 f \<Rightarrow> [])"

text \<open>
  \<open>let domains = $derived(() => { ... })\<close>. The component is compiled with runes, where
  \<open>$derived\<close> takes an expression and the derived value is the value of that expression:
  here the arrow function itself, which nothing calls (\<open>$derived.by\<close> would call it).
\<close>

definition domains :: "cookie list \<Rightarrow> each_source" where
  "domains cookies = Function0 (\<lambda>u. domainsFunction cookies)"

text \<open>The options of the domain filter: \<open>{#each domains as domain} <option ...>\<close>.\<close>

definition domainOptions :: "cookie list \<Rightarrow> string list" where
  "domainOptions cookies = each_items (domains cookies)"

subsection \<open>Filtering and sorting\<close>

datatype sortDirection = asc | desc

datatype cookie_key =
    K_name | K_value | K_domain | K_path | K_secure | K_httpOnly | K_sameSite
  | K_expirationDate | K_hostOnly | K_session | K_storeId

definition sameSite_string :: "sameSite \<Rightarrow> string" where
  "sameSite_string x =
     (case x of no_restriction \<Rightarrow> ''no_restriction'' | lax \<Rightarrow> ''lax'' | strict \<Rightarrow> ''strict'')"

text \<open>
  \<open>a[sortField] < b[sortField]\<close>: strings by code units, \<open>false\<close> below \<open>true\<close>,
  numbers by size; a comparison with \<open>undefined\<close> is false.
\<close>

fun field_less :: "cookie_key \<Rightarrow> cookie \<Rightarrow> cookie \<Rightarrow> bool" where
  "field_less K_name a b = str_less (name a) (name b)"
| "field_less K_value a b = str_less (value a) (value b)"
| "field_less K_domain a b = str_less (domain a) (domain b)"
| "field_less K_path a b = str_less (path a) (path b)"
| "field_less K_secure a b = (\<not> secure a \<and> secure b)"
| "field_less K_httpOnly a b = (\<not> httpOnly a \<and> httpOnly b)"
| "field_less K_sameSite a b =
     str_less (sameSite_string (sameSite a)) (sameSite_string (sameSite b))"
| "field_less K_expirationDate a b =
     (case expirationDate a of
        None \<Rightarrow> False
      | Some x \<Rightarrow> (case expirationDate b of None \<Rightarrow> False | Some y \<Rightarrow> x < y))"
| "field_less K_hostOnly a b = (\<not> hostOnly a \<and> hostOnly b)"
| "field_less K_session a b = (\<not> session a \<and> session b)"
| "field_less K_storeId a b = str_less (storeId a) (storeId b)"

definition compareCookies :: "cookie_key \<Rightarrow> sortDirection \<Rightarrow> cookie \<Rightarrow> cookie \<Rightarrow> int" where
  "compareCookies sortField sortDirection a b =
     (let comparison = (if field_less sortField b a then 1
                        else if field_less sortField a b then -1 else 0)
      in if sortDirection = desc then - comparison else comparison)"

record view =
  searchTerm :: string
  selectedDomain :: string
  showExpiredOnly :: bool
  sortField :: cookie_key
  sortDirection :: sortDirection

definition searchFilter :: "host \<Rightarrow> string \<Rightarrow> cookie list \<Rightarrow> cookie list" where
  "searchFilter h term cookies =
     (if term \<noteq> [] then
        filter (\<lambda>c. includes (toLowerCase h (name c)) (toLowerCase h term)
                  \<or> includes (toLowerCase h (value c)) (toLowerCase h term)
                  \<or> includes (toLowerCase h (domain c)) (toLowerCase h term)) cookies
      else cookies)"

definition domainFilter :: "string \<Rightarrow> cookie list \<Rightarrow> cookie list" where
  "domainFilter d cookies =
     (if d \<noteq> ''all'' then filter (\<lambda>c. domain c = d) cookies else cookies)"

text \<open>
  \<open>cookie.expirationDate && cookie.expirationDate < now\<close> with \<open>now = Date.now() / 1000\<close>:
  an absent date is falsy, and so is the number 0.
\<close>

definition expiredFilter :: "bool \<Rightarrow> rat \<Rightarrow> cookie list \<Rightarrow> cookie list" where
  "expiredFilter expiredOnly now cookies =
     (if expiredOnly then
        filter (\<lambda>c. case expirationDate c of None \<Rightarrow> False | Some e \<Rightarrow> e \<noteq> 0 \<and> e < now) cookies
      else cookies)"

text \<open>
  The body of the \<open>$effect\<close>: the value it assigns to \<open>filteredCookies\<close>. When no
  filter is on, the list it sorts in place is \<open>cookies\<close> itself; the value assigned is
  the same either way, and nothing below depends on the order \<open>cookies\<close> is left in.
\<close>

definition filteredCookies :: "host \<Rightarrow> rat \<Rightarrow> view \<Rightarrow> cookie list \<Rightarrow> cookie list" where
  "filteredCookies h now v cookies =
     js_sort (compareCookies (sortField v) (sortDirection v))
       (expiredFilter (showExpiredOnly v) now
          (domainFilter (selectedDomain v)
             (searchFilter h (searchTerm v) cookies)))"

subsection \<open>The states of the view\<close>

text \<open>The initial values of the five \<open>$state\<close> variables the filter reads.\<close>

definition initial_view :: view where
  "initial_view =
     \<lparr>searchTerm = [], selectedDomain = ''all'', showExpiredOnly = False,
      sortField = K_name, sortDirection = asc\<rparr>"

definition setSortField :: "cookie_key \<Rightarrow> view \<Rightarrow> view" where
  "setSortField f v =
     (if sortField v = f then
        v\<lparr>sortDirection := (if sortDirection v = asc then desc else asc)\<rparr>
      else v\<lparr>sortField := f, sortDirection := asc\<rparr>)"

text \<open>
  What the user can do to these variables: click the header of the name column or of the
  value column, the only two with an \<open>onclick\<close>, each calling \<open>setSortField\<close>; type in the
  search box; choose in the domain filter; tick the expired-only box.
\<close>

inductive reachable :: "view \<Rightarrow> bool" where
  start: "reachable initial_view"
| click_name: "reachable v \<Longrightarrow> reachable (setSortField K_name v)"
| click_value: "reachable v \<Longrightarrow> reachable (setSortField K_value v)"
| search: "reachable v \<Longrightarrow> reachable (v\<lparr>searchTerm := s\<rparr>)"
| choose_domain: "reachable v \<Longrightarrow> reachable (v\<lparr>selectedDomain := d\<rparr>)"
| tick_expired: "reachable v \<Longrightarrow> reachable (v\<lparr>showExpiredOnly := e\<rparr>)"


section \<open>A host to run the model on\<close>

text \<open>
  One host, for evaluating the operations on concrete inputs: strings are compared and
  lower-cased as sequences of ASCII code units, and the two JSON functions cover the
  texts that \<open>exportEntries\<close> writes, an object whose members are strings, with any
  white space; every other text is a syntax error for it.
\<close>

definition codeUnitCompare :: "string \<Rightarrow> string \<Rightarrow> int" where
  "codeUnitCompare a b = (if str_less a b then -1 else if str_less b a then 1 else 0)"

definition asciiLower :: "string \<Rightarrow> string" where
  "asciiLower s =
     map (\<lambda>c. if 65 \<le> (of_char c :: nat) \<and> (of_char c :: nat) \<le> 90 then char_of (of_char c + 32 :: nat) else c) s"

definition hexDigit :: "nat \<Rightarrow> char" where
  "hexDigit n = (if n < 10 then char_of (48 + n) else char_of (87 + n))"

definition quoteChar :: "char \<Rightarrow> string" where
  "quoteChar c =
     (if c = CHR 0x22 then [CHR 0x5C, CHR 0x22]
      else if c = CHR 0x5C then [CHR 0x5C, CHR 0x5C]
      else if c = CHR 0x08 then [CHR 0x5C, CHR ''b'']
      else if c = CHR 0x0C then [CHR 0x5C, CHR ''f'']
      else if c = CHR 0x0A then [CHR 0x5C, CHR ''n'']
      else if c = CHR 0x0D then [CHR 0x5C, CHR ''r'']
      else if c = CHR 0x09 then [CHR 0x5C, CHR ''t'']
      else if (of_char c :: nat) < 32 then
        [CHR 0x5C, CHR ''u'', CHR ''0'', CHR ''0'',
         hexDigit (of_char c div 16), hexDigit (of_char c mod 16)]
      else [c])"

definition quote :: "string \<Rightarrow> string" where
  "quote s = [CHR 0x22] @ concat (map quoteChar s) @ [CHR 0x22]"

definition flatStringify :: "(string \<times> string) list \<Rightarrow> string" where
  "flatStringify members =
     (if members = [] then ''{}''
      else ''{'' @ [CHR 0x0A]
           @ joinWith ('','' @ [CHR 0x0A])
               (map (\<lambda>kv. ''  '' @ quote (fst kv) @ '': '' @ quote (snd kv)) members)
           @ [CHR 0x0A] @ ''}'')"

definition hexVal :: "char \<Rightarrow> nat option" where
  "hexVal c =
     (let n = (of_char c :: nat) in
      if 48 \<le> n \<and> n \<le> 57 then Some (n - 48)
      else if 97 \<le> n \<and> n \<le> 102 then Some (n - 87)
      else if 65 \<le> n \<and> n \<le> 70 then Some (n - 55)
      else None)"

definition unescape :: "char \<Rightarrow> char option" where
  "unescape e =
     (if e = CHR 0x22 \<or> e = CHR 0x5C \<or> e = CHR ''/'' then Some e
      else if e = CHR ''b'' then Some (CHR 0x08)
      else if e = CHR ''f'' then Some (CHR 0x0C)
      else if e = CHR ''n'' then Some (CHR 0x0A)
      else if e = CHR ''r'' then Some (CHR 0x0D)
      else if e = CHR ''t'' then Some (CHR 0x09)
      else None)"

definition consChar :: "char \<Rightarrow> (string \<times> string) option \<Rightarrow> (string \<times> string) option" where
  "consChar c r = (case r of None \<Rightarrow> None | Some (s, rest) \<Rightarrow> Some (c # s, rest))"

text \<open>What follows a backslash: the character it stands for and how many characters it takes.\<close>

definition escapeAt :: "string \<Rightarrow> (char \<times> nat) option" where
  "escapeAt cs =
     (case cs of
        [] \<Rightarrow> None
      | e # r \<Rightarrow>
          if e = CHR ''u'' then
            (if length r < 4 then None
             else (case hexVal (r ! 2) of
                     None \<Rightarrow> None
                   | Some x \<Rightarrow>
                       (case hexVal (r ! 3) of
                          None \<Rightarrow> None
                        | Some y \<Rightarrow>
                            if hexVal (r ! 0) = Some 0 \<and> hexVal (r ! 1) = Some 0
                            then Some (char_of (16 * x + y), 5) else None)))
          else map_option (\<lambda>d. (d, 1)) (unescape e))"

fun stringBody :: "string \<Rightarrow> (string \<times> string) option" where
  "stringBody [] = None"
| "stringBody (c # cs) =
     (if c = CHR 0x22 then Some ([], cs)
      else if c = CHR 0x5C then
        (case escapeAt cs of
           None \<Rightarrow> None
         | Some dn \<Rightarrow> consChar (fst dn) (stringBody (drop (snd dn) cs)))
      else if (of_char c :: nat) < 32 then None
      else consChar c (stringBody cs))"

definition skipWs :: "string \<Rightarrow> string" where
  "skipWs cs = dropWhile (\<lambda>c. c = CHR '' '' \<or> c = CHR 0x09 \<or> c = CHR 0x0A \<or> c = CHR 0x0D) cs"

definition stringLit :: "string \<Rightarrow> (string \<times> string) option" where
  "stringLit cs = (case cs of [] \<Rightarrow> None | c # r \<Rightarrow> if c = CHR 0x22 then stringBody r else None)"

text \<open>One member \<open>"k": "v"\<close> and the character after it, with the rest of the text.\<close>

definition flatMember :: "string \<Rightarrow> ((string \<times> string) \<times> char \<times> string) option" where
  "flatMember cs =
     (case stringLit (skipWs cs) of
        None \<Rightarrow> None
      | Some kr \<Rightarrow>
          (case skipWs (snd kr) of
             [] \<Rightarrow> None
           | c1 # r2 \<Rightarrow>
               if c1 \<noteq> CHR '':'' then None
               else (case stringLit (skipWs r2) of
                       None \<Rightarrow> None
                     | Some vr \<Rightarrow>
                         (case skipWs (snd vr) of
                            [] \<Rightarrow> None
                          | c2 # r4 \<Rightarrow> Some ((fst kr, fst vr), c2, r4)))))"

primrec flatMembers :: "nat \<Rightarrow> (string \<times> string) list \<Rightarrow> string \<Rightarrow> (string \<times> string) list option" where
  "flatMembers 0 acc cs = None"
| "flatMembers (Suc n) acc cs =
     (case flatMember cs of
        None \<Rightarrow> None
      | Some m \<Rightarrow>
          if fst (snd m) = CHR '','' then
            flatMembers n (defineOwn acc (fst (fst m)) (snd (fst m))) (snd (snd m))
          else if fst (snd m) = CHR ''}'' \<and> skipWs (snd (snd m)) = [] then
            Some (defineOwn acc (fst (fst m)) (snd (fst m)))
          else None)"

definition flatParse :: "string \<Rightarrow> jsval option" where
  "flatParse text =
     (case skipWs text of
        [] \<Rightarrow> None
      | c # r \<Rightarrow>
          if c \<noteq> CHR ''{'' then None
          else (case skipWs r of
                  [] \<Rightarrow> None
                | c1 # r1 \<Rightarrow>
                    if c1 = CHR ''}'' then (if skipWs r1 = [] then Some (JObj []) else None)
                    else map_option recordVal (flatMembers (length r) [] r)))"

definition sample_host :: host where
  "sample_host = \<lparr>localeCompare = codeUnitCompare, toLowerCase = asciiLower,
                    JSON_parse = flatParse, JSON_stringify = flatStringify\<rparr>"


text \<open>
  Two cookie APIs over simple states. \<open>jar_api\<close> keeps the cookies in a list:
  \<open>getAll\<close> selects by exact domain, \<open>set\<close> replaces the cookie of the same name,
  domain and path, \<open>remove\<close> drops the cookies of that name whose URL is the one given.
  \<open>broken_api e\<close> rejects every call with \<open>e\<close> and counts the calls.
\<close>

definition cookieUrl :: "cookie \<Rightarrow> string" where
  "cookieUrl c = inferUrl \<lparr>io_domain = domain c, io_path = Some (path c), io_secure = Some (secure c)\<rparr>"







text \<open>Inputs for running the model.\<close>

definition no_tab_browser :: browser where
  "no_tab_browser = \<lparr>activeTabs = [], pages = (\<lambda>t. None), calls = []\<rparr>"

definition demo_page :: page where
  "demo_page = \<lparr>localStorage = [(''b'', ''2''), (''a'', ''1'')], sessionStorage = []\<rparr>"

definition demo_browser :: browser where
  "demo_browser =
     \<lparr>activeTabs = [\<lparr>tab_id = Some 7\<rparr>],
      pages = (\<lambda>t. if t = 7 then Some demo_page else None), calls = []\<rparr>"








definition mk_cookie :: "string \<Rightarrow> string \<Rightarrow> rat option \<Rightarrow> cookie" where
  "mk_cookie n d e =
     \<lparr>name = n, value = ''v'', domain = d, path = ''/'', secure = False,
      httpOnly = False, sameSite = lax, expirationDate = e, hostOnly = True,
      session = (e = None), storeId = ''0''\<rparr>"



definition valued_cookie :: "string \<Rightarrow> string \<Rightarrow> cookie" where
  "valued_cookie n v = (mk_cookie n ''x.com'' None)\<lparr>value := v\<rparr>"



definition expired_view :: view where
  "expired_view =
     \<lparr>searchTerm = [], selectedDomain = ''all'', showExpiredOnly = True,
      sortField = K_name, sortDirection = asc\<rparr>"

section \<open>Notions of the specification\<close>

text \<open>
  A comparator is consistent when the relation \<open>cmp a b \<le> 0\<close> is total and transitive.
\<close>

definition consistent :: "('a \<Rightarrow> 'a \<Rightarrow> int) \<Rightarrow> bool" where
  "consistent cmp =
     ((\<forall>a b. cmp a b \<le> 0 \<or> cmp b a \<le> 0)
      \<and> (\<forall>a b c. cmp a b \<le> 0 \<longrightarrow> cmp b c \<le> 0 \<longrightarrow> cmp a c \<le> 0))"




text \<open>An expired cookie, in the words of the specification: it has an expiration date,
  and the date is strictly before now.\<close>

definition spec_expired :: "rat \<Rightarrow> cookie \<Rightarrow> bool" where
  "spec_expired now c = (case expirationDate c of None \<Rightarrow> False | Some e \<Rightarrow> e < now)"

text \<open>The value \<open>a[sortField]\<close> of a cookie's field.\<close>

datatype field_value = Str string | Bool bool | Num rat | Undefined

fun field :: "cookie_key \<Rightarrow> cookie \<Rightarrow> field_value" where
  "field K_name c = Str (name c)"
| "field K_value c = Str (value c)"
| "field K_domain c = Str (domain c)"
| "field K_path c = Str (path c)"
| "field K_secure c = Bool (secure c)"
| "field K_httpOnly c = Bool (httpOnly c)"
| "field K_sameSite c = Str (sameSite_string (sameSite c))"
| "field K_expirationDate c = (case expirationDate c of None \<Rightarrow> Undefined | Some e \<Rightarrow> Num e)"
| "field K_hostOnly c = Bool (hostOnly c)"
| "field K_session c = Bool (session c)"
| "field K_storeId c = Str (storeId c)"

text \<open>No ties for the comparator: of any two cookies at different positions, one is
  below the other.\<close>

definition no_ties :: "cookie_key \<Rightarrow> cookie list \<Rightarrow> bool" where
  "no_ties f cookies =
     (\<forall>i < length cookies. \<forall>j < length cookies.
        i \<noteq> j \<longrightarrow> field_less f (cookies ! i) (cookies ! j) \<or> field_less f (cookies ! j) (cookies ! i))"

text \<open>The entry that one pass of the reading loop makes of an item.\<close>

definition entryOf :: "storage \<Rightarrow> string \<times> string \<Rightarrow> StorageEntry" where
  "entryOf st kv =
     \<lparr>key = fst kv,
      StorageEntry.value = (case getItem st (fst kv) of None \<Rightarrow> [] | Some v \<Rightarrow> if v = [] then [] else v)\<rparr>"

section \<open>Sorting\<close>

subsection \<open>Insertion is a permutation\<close>

lemma mset_insort_cmp: "mset (insort_cmp cmp x xs) = add_mset x (mset xs)"
  by (induction xs) auto

lemma mset_js_sort: "mset (js_sort cmp xs) = mset xs"
  by (induction xs) (auto simp: mset_insort_cmp)

lemma set_insort_cmp: "set (insort_cmp cmp x xs) = insert x (set xs)"
  by (induction xs) auto

lemma set_js_sort: "set (js_sort cmp xs) = set xs"
  by (induction xs) (auto simp: set_insort_cmp)

lemma length_js_sort: "length (js_sort cmp xs) = length xs"
  using mset_js_sort [of cmp xs] by (metis size_mset)

subsection \<open>Consistent comparators\<close>

lemma sorted_insort_cmp:
  assumes "consistent cmp" and "sorted_wrt (\<lambda>a b. cmp a b \<le> 0) xs"
  shows "sorted_wrt (\<lambda>a b. cmp a b \<le> 0) (insort_cmp cmp x xs)"
  using assms(2)
proof (induction xs)
  case Nil
  then show ?case by simp
next
  case (Cons y ys)
  show ?case
  proof (cases "cmp x y \<le> 0")
    case True
    have "cmp x z \<le> 0" if "z \<in> set ys" for z
      using Cons.prems True that assms(1) unfolding consistent_def by (metis sorted_wrt.simps(2))
    with True Cons.prems show ?thesis by auto
  next
    case False
    then have "cmp y x \<le> 0" using assms(1) unfolding consistent_def by blast
    with False Cons show ?thesis by (auto simp: set_insort_cmp)
  qed
qed

lemma sorted_js_sort:
  "consistent cmp \<Longrightarrow> sorted_wrt (\<lambda>a b. cmp a b \<le> 0) (js_sort cmp xs)"
  by (induction xs) (auto intro: sorted_insort_cmp)

lemma consistent_on_key:
  "consistent cmp \<Longrightarrow> consistent (\<lambda>a b. cmp (f a) (f b))"
  unfolding consistent_def by blast

subsection \<open>The order of strings\<close>

lemma str_less_irrefl: "\<not> str_less a a"
  by (induction a) auto

lemma str_less_trans: "str_less a b \<Longrightarrow> str_less b c \<Longrightarrow> str_less a c"
proof (induction a b arbitrary: c rule: str_less.induct)
  case (2 y ys)
  then show ?case by (cases c) auto
next
  case (4 x xs y ys)
  then show ?case by (cases c) auto
qed auto

lemma str_less_total: "a \<noteq> b \<Longrightarrow> str_less a b \<or> str_less b a"
proof (induction a b rule: str_less.induct)
  case (4 x xs y ys)
  then show ?case
    by (cases "(of_char x :: nat) < of_char y"; cases "(of_char y :: nat) < of_char x") auto
qed auto

lemma str_less_asym: "str_less a b \<Longrightarrow> \<not> str_less b a"
  using str_less_trans str_less_irrefl by blast

lemma consistent_defaultCompare: "consistent defaultCompare"
  unfolding consistent_def defaultCompare_def
  by (auto dest: str_less_asym str_less_trans) (metis str_less_total str_less_trans)+

lemma consistent_codeUnitCompare: "consistent codeUnitCompare"
  unfolding consistent_def codeUnitCompare_def
  by (auto dest: str_less_asym str_less_trans) (metis str_less_total str_less_trans)+

lemma distinct_js_sort: "distinct (js_sort cmp xs) = distinct xs"
  using mset_js_sort [of cmp xs] by (metis mset_eq_imp_distinct_iff)

lemma sorted_wrt_distinct_strict:
  "sorted_wrt P xs \<Longrightarrow> distinct xs \<Longrightarrow> sorted_wrt (\<lambda>a b. P a b \<and> a \<noteq> b) xs"
  by (induction xs) auto

lemma sorted_default_sort:
  assumes "distinct xs"
  shows "sorted_wrt str_less (js_sort defaultCompare xs)"
proof -
  have "sorted_wrt (\<lambda>a b. defaultCompare a b \<le> 0 \<and> a \<noteq> b) (js_sort defaultCompare xs)"
    using sorted_js_sort [OF consistent_defaultCompare] assms
    by (intro sorted_wrt_distinct_strict) (simp_all add: distinct_js_sort)
  moreover have "str_less a b" if "defaultCompare a b \<le> 0 \<and> a \<noteq> b" for a b
    using that str_less_total [of a b] by (auto simp: defaultCompare_def split: if_splits)
  ultimately show ?thesis
    by (rule sorted_wrt_mono_rel [rotated]) blast
qed

subsection \<open>Strictly ordered lists\<close>

text \<open>Inserting into a strictly ordered list an element comparable with all of it.\<close>

lemma insort_strict:
  assumes tr: "\<And>a b c. lt a b \<Longrightarrow> lt b c \<Longrightarrow> lt a c"
    and le: "\<And>a b. (cmp a b \<le> 0) = (\<not> lt b a)"
    and "sorted_wrt lt ys"
    and "\<forall>y \<in> set ys. lt x y \<or> lt y x"
  shows "sorted_wrt lt (insort_cmp cmp x ys)"
  using assms(3,4)
proof (induction ys)
  case Nil
  then show ?case by simp
next
  case (Cons y ys)
  show ?case
  proof (cases "lt y x")
    case True
    then have "\<not> cmp x y \<le> 0" by (simp add: le)
    with True Cons show ?thesis by (auto simp: set_insort_cmp)
  next
    case False
    then have xy: "lt x y" using Cons.prems(2) by auto
    then have "lt x z" if "z \<in> set ys" for z
      using Cons.prems(1) that tr by auto
    with False xy Cons.prems(1) show ?thesis by (auto simp: le)
  qed
qed

lemma js_sort_strict:
  assumes tr: "\<And>a b c. lt a b \<Longrightarrow> lt b c \<Longrightarrow> lt a c"
    and le: "\<And>a b. (cmp a b \<le> 0) = (\<not> lt b a)"
    and "distinct xs"
    and "\<forall>a \<in> set xs. \<forall>b \<in> set xs. a \<noteq> b \<longrightarrow> lt a b \<or> lt b a"
  shows "sorted_wrt lt (js_sort cmp xs)"
  using assms(3,4)
proof (induction xs)
  case Nil
  then show ?case by simp
next
  case (Cons x xs)
  have "sorted_wrt lt (js_sort cmp xs)"
    using Cons by auto
  moreover have "\<forall>y \<in> set (js_sort cmp xs). lt x y \<or> lt y x"
    using Cons.prems by (auto simp: set_js_sort)
  ultimately show ?case
    using insort_strict [of lt cmp "js_sort cmp xs" x] tr le by simp
qed

text \<open>A set has one strictly ordered enumeration.\<close>

lemma strict_sorted_unique:
  assumes irr: "\<And>a. \<not> lt a a"
    and tr: "\<And>a b c. lt a b \<Longrightarrow> lt b c \<Longrightarrow> lt a c"
  shows "sorted_wrt lt xs \<Longrightarrow> sorted_wrt lt ys \<Longrightarrow> set xs = set ys \<Longrightarrow> xs = ys"
proof (induction xs arbitrary: ys)
  case Nil
  then show ?case by simp
next
  case (Cons x xs)
  then obtain y ys' where ys: "ys = y # ys'" by (cases ys) auto
  have "x = y"
  proof (rule ccontr)
    assume ne: "x \<noteq> y"
    then have "x \<in> set ys'" using Cons.prems(3) ys by auto
    then have "lt y x" using Cons.prems(2) ys by auto
    moreover have "y \<in> set xs" using ne Cons.prems(3) ys by auto
    then have "lt x y" using Cons.prems(1) by auto
    ultimately show False using irr tr by blast
  qed
  moreover have "x \<notin> set xs" using Cons.prems(1) irr by auto
  moreover have "y \<notin> set ys'" using Cons.prems(2) ys irr by auto
  ultimately have "set xs = set ys'"
    using Cons.prems(3) ys by auto
  with Cons \<open>x = y\<close> ys show ?case by auto
qed

section \<open>Properties of the storage service\<close>

subsection \<open>Storage keeps its keys distinct\<close>

lemma keys_setItem:
  "map fst (setItem st k v) = (if k \<in> set (map fst st) then map fst st else map fst st @ [k])"
  by (induction st) force+

lemma distinct_setItem: "distinct (map fst st) \<Longrightarrow> distinct (map fst (setItem st k v))"
  by (simp add: keys_setItem)

lemma distinct_removeItem: "distinct (map fst st) \<Longrightarrow> distinct (map fst (removeItem st k))"
  by (simp add: removeItem_def distinct_map_filter)

lemma distinct_clear: "distinct (map fst (clear st))"
  by (simp add: clear_def)

subsection \<open>Reading\<close>

lemma readLoop_eq: "readLoop st i entries = entries @ map (entryOf st) (drop i st)"
proof (induction st i entries rule: readLoop.induct)
  case (1 st i entries)
  show ?case
  proof (cases "i < length st")
    case True
    then have d: "drop i st = st ! i # drop (Suc i) st"
      by (simp add: Cons_nth_drop_Suc)
    from True have k: "storage_key st i = Some (fst (st ! i))"
      by (simp add: storage_key_def)
    show ?thesis
      using True k d "1.IH"(2) [OF _ k]
      by (subst readLoop.simps) (simp add: storage_length_def entryOf_def)
  next
    case False
    then show ?thesis
      by (subst readLoop.simps) (simp add: storage_length_def)
  qed
qed

lemma entryOf_distinct:
  assumes "distinct (map fst st)" and "kv \<in> set st"
  shows "entryOf st kv = \<lparr>key = fst kv, StorageEntry.value = snd kv\<rparr>"
proof -
  have "map_of st (fst kv) = Some (snd kv)"
    using assms by (cases kv) simp
  then show ?thesis by (simp add: entryOf_def getItem_def)
qed

lemma readLoop_distinct:
  assumes "distinct (map fst st)"
  shows "readLoop st 0 [] = map (\<lambda>kv. \<lparr>key = fst kv, StorageEntry.value = snd kv\<rparr>) st"
  using assms by (simp add: readLoop_eq entryOf_distinct cong: map_cong)

text \<open>Every entry read from a storage holds the value the storage maps its key to.\<close>

lemma entryOf_lookup:
  assumes "kv \<in> set st"
  shows "map_of st (key (entryOf st kv)) = Some (StorageEntry.value (entryOf st kv))"
proof -
  have "fst kv \<in> fst ` set st" using assms by auto
  then obtain v where "map_of st (fst kv) = Some v"
    by (metis domD dom_map_of_conv_image_fst)
  then show ?thesis by (simp add: entryOf_def getItem_def)
qed

lemma readLoop_lookup:
  assumes "e \<in> set (readLoop st 0 [])"
  shows "map_of st (key e) = Some (StorageEntry.value e)"
  using assms entryOf_lookup by (auto simp: readLoop_eq)

lemma fun_upd_same_page: "f x = Some p \<Longrightarrow> f(x := Some p) = f"
  by auto

lemma getAllEntries_tab:
  assumes "firstTabId (activeTabs b) = Some tid" and "pages b tid = Some p"
  shows "getAllEntries h t b =
           (Inr (js_sort (\<lambda>x y. localeCompare h (key x) (key y)) (readLoop (storageOf t p) 0 [])),
            b\<lparr>calls := calls b @ [TabsQuery, ExecuteScript tid]\<rparr>)"
  using assms
  by (simp add: getAllEntries_def tabs_query_def executeScript_def readFunc_def fun_upd_same_page)

lemma getAllEntries_no_page:
  assumes "firstTabId (activeTabs b) = Some tid" and "pages b tid = None"
  shows "getAllEntries h t b = (Inr [], b\<lparr>calls := calls b @ [TabsQuery, ExecuteScript tid]\<rparr>)"
  using assms by (simp add: getAllEntries_def tabs_query_def executeScript_def)

text \<open>\<open>getAllEntries\<close> resolves with nothing, or with what it read from the page.\<close>

lemma getAllEntries_cases:
  obtains (none) cs where "getAllEntries h t b = (Inr [], b\<lparr>calls := calls b @ cs\<rparr>)"
  | (page) tid p where "firstTabId (activeTabs b) = Some tid" "pages b tid = Some p"
      "getAllEntries h t b =
         (Inr (js_sort (\<lambda>x y. localeCompare h (key x) (key y)) (readLoop (storageOf t p) 0 [])),
          b\<lparr>calls := calls b @ [TabsQuery, ExecuteScript tid]\<rparr>)"
proof (cases "firstTabId (activeTabs b)")
  case None
  then have "getAllEntries h t b = (Inr [], b\<lparr>calls := calls b @ [TabsQuery]\<rparr>)"
    by (simp add: getAllEntries_def tabs_query_def)
  then show ?thesis by (rule none)
next
  case (Some tid)
  show ?thesis
  proof (cases "pages b tid")
    case None
    show ?thesis by (rule none) (rule getAllEntries_no_page [OF Some None])
  next
    case (Some p)
    show ?thesis
      by (rule page [OF \<open>firstTabId (activeTabs b) = Some tid\<close> Some])
        (rule getAllEntries_tab [OF \<open>firstTabId (activeTabs b) = Some tid\<close> Some])
  qed
qed


text \<open>
  C1. When the query for the active tab yields no usable tab (no tab, a tab without an
  id, or the id 0), \<open>getAllEntries\<close> resolves with the empty list, and \<open>setEntry\<close>,
  \<open>deleteEntry\<close> and \<open>clearAll\<close> reject with the error "No active tab found", for either
  storage type. Nothing is injected: the only browser call made is the query.
\<close>

theorem no_active_tab:
  assumes "firstTabId (activeTabs b) = None"
  shows "getAllEntries h t b = (Inr [], b\<lparr>calls := calls b @ [TabsQuery]\<rparr>)
       \<and> setEntry t k v b = (Inl (Error ''No active tab found''), b\<lparr>calls := calls b @ [TabsQuery]\<rparr>)
       \<and> deleteEntry t k b = (Inl (Error ''No active tab found''), b\<lparr>calls := calls b @ [TabsQuery]\<rparr>)
       \<and> clearAll t b = (Inl (Error ''No active tab found''), b\<lparr>calls := calls b @ [TabsQuery]\<rparr>)"
  using assms
  by (simp add: getAllEntries_def setEntry_def deleteEntry_def clearAll_def tabs_query_def)

theorem no_active_tab_witness:
  "firstTabId (activeTabs no_tab_browser) = None
   \<and> fst (getAllEntries sample_host Local no_tab_browser) = Inr []
   \<and> fst (setEntry Session ''k'' ''v'' no_tab_browser) = Inl (Error ''No active tab found'')
   \<and> fst (deleteEntry Session ''k'' no_tab_browser) = Inl (Error ''No active tab found'')
   \<and> fst (clearAll Local no_tab_browser) = Inl (Error ''No active tab found'')"
proof -
  have h: "firstTabId (activeTabs no_tab_browser) = None"
    by (simp add: no_tab_browser_def firstTabId_def)
  show ?thesis
    using h no_active_tab [OF h, of sample_host Local "''k''" "''v''"]
      no_active_tab [OF h, of sample_host Session "''k''" "''v''"] by simp
qed

text \<open>
  C7. On a tab whose page can be reached, \<open>getAllEntries\<close> resolves with the items of the
  page's storage, each once, as entries in ascending order of their keys under
  \<open>localeCompare\<close> (taken to be consistent; the keys of a storage are distinct). In
  particular, when the storage holds \<open>b\<close> with value \<open>2\<close> and then \<open>a\<close> with value \<open>1\<close>,
  and \<open>"b".localeCompare("a")\<close> is positive, the result is \<open>a\<close> with \<open>1\<close>, then \<open>b\<close> with \<open>2\<close>.
\<close>

theorem getAllEntries_sorted:
  assumes "consistent (localeCompare h)"
    and "firstTabId (activeTabs b) = Some tid"
    and "pages b tid = Some p"
    and "distinct (map fst (storageOf t p))"
  shows "\<exists>es. fst (getAllEntries h t b) = Inr es
           \<and> sorted_wrt (\<lambda>x y. localeCompare h (key x) (key y) \<le> 0) es
           \<and> mset es = mset (map (\<lambda>kv. \<lparr>key = fst kv, StorageEntry.value = snd kv\<rparr>) (storageOf t p))
           \<and> (storageOf t p = [(''b'', ''2''), (''a'', ''1'')] \<and> 0 < localeCompare h ''b'' ''a''
                \<longrightarrow> es = [\<lparr>key = ''a'', StorageEntry.value = ''1''\<rparr>,
                          \<lparr>key = ''b'', StorageEntry.value = ''2''\<rparr>])"
proof -
  let ?cmp = "\<lambda>x y. localeCompare h (key x) (key y)"
  let ?es = "js_sort ?cmp (readLoop (storageOf t p) 0 [])"
  have "consistent ?cmp"
    using assms(1) by (rule consistent_on_key)
  then have "sorted_wrt (\<lambda>x y. ?cmp x y \<le> 0) ?es"
    by (rule sorted_js_sort)
  moreover have "mset ?es
      = mset (map (\<lambda>kv. \<lparr>key = fst kv, StorageEntry.value = snd kv\<rparr>) (storageOf t p))"
    by (simp add: mset_js_sort readLoop_distinct [OF assms(4)])
  moreover have "?es = [\<lparr>key = ''a'', StorageEntry.value = ''1''\<rparr>,
                        \<lparr>key = ''b'', StorageEntry.value = ''2''\<rparr>]"
    if "storageOf t p = [(''b'', ''2''), (''a'', ''1'')]" and "0 < localeCompare h ''b'' ''a''"
    using that readLoop_distinct [OF assms(4)] by simp
  ultimately show ?thesis
    using getAllEntries_tab [OF assms(2,3), of h t] by auto
qed

theorem getAllEntries_sorted_witness:
  "consistent (localeCompare sample_host)
   \<and> firstTabId (activeTabs demo_browser) = Some 7
   \<and> pages demo_browser 7 = Some demo_page
   \<and> distinct (map fst (storageOf Local demo_page))
   \<and> storageOf Local demo_page = [(''b'', ''2''), (''a'', ''1'')]
   \<and> 0 < localeCompare sample_host ''b'' ''a''
   \<and> fst (getAllEntries sample_host Local demo_browser)
       = Inr [\<lparr>key = ''a'', StorageEntry.value = ''1''\<rparr>, \<lparr>key = ''b'', StorageEntry.value = ''2''\<rparr>]"
proof -
  have h1: "consistent (localeCompare sample_host)"
    by (simp add: sample_host_def consistent_codeUnitCompare)
  have h2: "firstTabId (activeTabs demo_browser) = Some 7"
    by (simp add: demo_browser_def firstTabId_def)
  have h3: "pages demo_browser 7 = Some demo_page"
    by (simp add: demo_browser_def)
  have h4: "distinct (map fst (storageOf Local demo_page))"
    by (simp add: storageOf_def demo_page_def)
  have h5: "storageOf Local demo_page = [(''b'', ''2''), (''a'', ''1'')]"
    by (simp add: storageOf_def demo_page_def)
  have h6: "0 < localeCompare sample_host ''b'' ''a''"
    by (simp add: sample_host_def codeUnitCompare_def)
  show ?thesis
    using h1 h2 h3 h4 h5 h6 getAllEntries_sorted [OF h1 h2 h3 h4] by auto
qed

subsection \<open>Import and export\<close>

text \<open>
  C2. When \<open>JSON.parse\<close> rejects the text, \<open>importEntries\<close> rejects with the error
  "Invalid JSON format" and leaves the browser as it was: no tab is queried, nothing is
  injected, no storage changes. This holds for either storage type.
\<close>

theorem import_invalid_json:
  assumes "JSON_parse h jsonData = None"
  shows "importEntries h t jsonData b = (Inl (Error ''Invalid JSON format''), b)"
  using assms by (simp add: importEntries_def importBody_def)

theorem import_invalid_json_witness:
  "JSON_parse sample_host ''{not json'' = None
   \<and> importEntries sample_host Local ''{not json'' no_tab_browser
       = (Inl (Error ''Invalid JSON format''), no_tab_browser)"
proof -
  have h: "JSON_parse sample_host ''{not json'' = None"
    by (simp add: sample_host_def flatParse_def skipWs_def stringLit_def flatMember_def)
  show ?thesis using h import_invalid_json [OF h] by simp
qed

lemma setItem_same: "map_of st k = Some v \<Longrightarrow> setItem st k v = st"
  by (induction st) (auto split: if_splits)

lemma set_defineOwn: "set (defineOwn ps k v) \<subseteq> insert (k, v) (set ps)"
  by (induction ps) (auto split: if_splits)

lemma set_obj_assign: "set (obj_assign ps k v) \<subseteq> insert (k, v) (set ps)"
  using set_defineOwn [of ps k v] by (auto simp: obj_assign_def)

lemma set_foldl_assign:
  "set (foldl (\<lambda>acc entry. obj_assign acc (key entry) (StorageEntry.value entry)) acc entries)
     \<subseteq> set acc \<union> (\<lambda>e. (key e, StorageEntry.value e)) ` set entries"
proof (induction entries arbitrary: acc)
  case Nil
  then show ?case by simp
next
  case (Cons e entries)
  show ?case
    using Cons [of "obj_assign acc (key e) (StorageEntry.value e)"]
      set_obj_assign [of acc "key e" "StorageEntry.value e"]
    by auto
qed

lemma set_exportData:
  "set (exportData entries) \<subseteq> (\<lambda>e. (key e, StorageEntry.value e)) ` set entries"
  using set_foldl_assign [of "[]" entries] by (simp add: exportData_def)

lemma set_ownEntries: "set (ownEntries obj) = set obj"
  by (auto simp: ownEntries_def)

text \<open>Writing to a key the value it already has changes nothing but the record of calls.\<close>

lemma setEntry_same:
  assumes "firstTabId (activeTabs b) = Some tid" and "pages b tid = Some p"
    and "map_of (storageOf t p) k = Some v"
  shows "setEntry t k v b = (Inr (), b\<lparr>calls := calls b @ [TabsQuery, ExecuteScript tid]\<rparr>)"
proof -
  have "withStorage t (\<lambda>st. setItem st k v) p = p"
    using assms(3) by (simp add: withStorage_def storageOf_def setItem_same split: if_splits)
  then show ?thesis
    using assms(1,2)
    by (simp add: setEntry_def tabs_query_def executeScript_def setFunc_def fun_upd_same_page)
qed

lemma writeAll_same:
  assumes "firstTabId (activeTabs b) = Some tid" and "pages b tid = Some p"
    and "\<forall>kv \<in> set ms. map_of (storageOf t p) (fst kv) = Some (snd kv)"
  shows "\<exists>cs. writeAll t (map (\<lambda>kv. (fst kv, JStr (snd kv))) ms) b
                = (Inr (), b\<lparr>calls := calls b @ cs\<rparr>)"
  using assms
proof (induction ms arbitrary: b)
  case Nil
  show ?case by (rule exI [of _ "[]"]) simp
next
  case (Cons m ms)
  let ?b1 = "b\<lparr>calls := calls b @ [TabsQuery, ExecuteScript tid]\<rparr>"
  have s: "setEntry t (fst m) (snd m) b = (Inr (), ?b1)"
    using Cons.prems by (intro setEntry_same) auto
  obtain cs where "writeAll t (map (\<lambda>kv. (fst kv, JStr (snd kv))) ms) ?b1
                     = (Inr (), ?b1\<lparr>calls := calls ?b1 @ cs\<rparr>)"
    using Cons.IH [of ?b1] Cons.prems by auto
  then have "writeAll t (map (\<lambda>kv. (fst kv, JStr (snd kv))) (m # ms)) b
              = (Inr (), b\<lparr>calls := calls b @ ([TabsQuery, ExecuteScript tid] @ cs)\<rparr>)"
    using s by simp
  then show ?case by blast
qed


text \<open>
  Importing the exported text back into the storage it was read from writes to every
  key the value it already has: every page is left as it was.
\<close>

lemma reimport_same_storage:
  assumes "getAllEntries h t b = (Inr entries, b1)"
    and "JSON_parse h (JSON_stringify h (ownEntries (exportData entries)))
           = Some (recordVal (exportData entries))"
  shows "\<exists>text b2. exportEntries h t b = (Inr text, b1)
           \<and> importEntries h t text b1 = (Inr (), b2)
           \<and> pages b1 = pages b \<and> pages b2 = pages b"
proof -
  let ?text = "JSON_stringify h (ownEntries (exportData entries))"
  let ?ms = "ownEntries (exportData entries)"
  have ex: "exportEntries h t b = (Inr ?text, b1)"
    using assms(1) by (simp add: exportEntries_def)
  have body: "importBody h t ?text b1 = writeAll t (map (\<lambda>kv. (fst kv, JStr (snd kv))) ?ms) b1"
    using assms(2) by (simp add: importBody_def recordVal_def Object_entries_def)
  have "\<exists>cs. writeAll t (map (\<lambda>kv. (fst kv, JStr (snd kv))) ?ms) b1
               = (Inr (), b1\<lparr>calls := calls b1 @ cs\<rparr>)
          \<and> pages b1 = pages b"
  proof (cases rule: getAllEntries_cases [of h t b])
    case (none cs)
    with assms(1) have "entries = []" "b1 = b\<lparr>calls := calls b @ cs\<rparr>" by auto
    then have "?ms = []" "pages b1 = pages b" by (simp_all add: exportData_def ownEntries_def)
    then show ?thesis by (intro exI [of _ "[]"]) simp
  next
    case (page tid p)
    with assms(1)
    have e: "entries = js_sort (\<lambda>x y. localeCompare h (key x) (key y)) (readLoop (storageOf t p) 0 [])"
      and b1: "b1 = b\<lparr>calls := calls b @ [TabsQuery, ExecuteScript tid]\<rparr>" by auto
    have "\<forall>kv \<in> set ?ms. map_of (storageOf t p) (fst kv) = Some (snd kv)"
    proof
      fix kv assume "kv \<in> set ?ms"
      then obtain en where "en \<in> set entries" "kv = (key en, StorageEntry.value en)"
        using set_exportData [of entries] by (auto simp: set_ownEntries)
      then show "map_of (storageOf t p) (fst kv) = Some (snd kv)"
        using readLoop_lookup [of en "storageOf t p"] by (simp add: e set_js_sort)
    qed
    moreover have "firstTabId (activeTabs b1) = Some tid" "pages b1 tid = Some p"
      using page(1,2) b1 by simp_all
    ultimately show ?thesis
      using writeAll_same [of b1 tid p ?ms t] b1 by simp
  qed
  then obtain cs where w: "writeAll t (map (\<lambda>kv. (fst kv, JStr (snd kv))) ?ms) b1
                             = (Inr (), b1\<lparr>calls := calls b1 @ cs\<rparr>)"
    and p: "pages b1 = pages b" by blast
  have "importEntries h t ?text b1 = (Inr (), b1\<lparr>calls := calls b1 @ cs\<rparr>)"
    using body w by (simp add: importEntries_def)
  with ex p show ?thesis by auto
qed

subsection \<open>Importing an exported text into another storage\<close>










text \<open>The key \<open>__proto__\<close> is not exported.\<close>

lemma proto_key_dropped:
  "exportData [\<lparr>key = ''__proto__'', StorageEntry.value = ''x''\<rparr>, \<lparr>key = ''a'', StorageEntry.value = ''1''\<rparr>]
     = [(''a'', ''1'')]"
  by (simp add: exportData_def obj_assign_def)




section \<open>Properties of the cookie adapter\<close>


text \<open>\<open>set\<close> and \<open>delete\<close> make one call of the browser, with these arguments.\<close>

lemma adapter_set_passes:
  "adapter_set api n v options s =
     (case api_set api (set_request n v options) s of
        (Inl e, s1) \<Rightarrow> (Inl e, s1) | (Inr u, s1) \<Rightarrow> (Inr (), s1))"
  by (simp add: adapter_set_def)

lemma adapter_delete_passes:
  "adapter_delete api n dmn p s =
     (case api_remove api (delete_request n dmn p) s of
        (Inl e, s1) \<Rightarrow> (Inl e, s1) | (Inr u, s1) \<Rightarrow> (Inr (), s1))"
  by (simp add: adapter_delete_def)

text \<open>\<open>clear\<close> passes for each cookie the URL inferred from its domain, path and
  \<open>secure\<close> flag.\<close>

lemma removeEach_url:
  "removeEach api (c # cs) s =
     (case api_remove api \<lparr>r_name = name c, r_url = cookieUrl c\<rparr> s of
        (Inl e, s1) \<Rightarrow> (Inl e, s1) | (Inr u, s1) \<Rightarrow> removeEach api cs s1)"
  by (simp add: cookieUrl_def)






subsection \<open>Failures of the browser\<close>








section \<open>Properties of the dashboard\<close>

subsection \<open>The expired-only filter\<close>

text \<open>
  C4, as the code has it. With the expired-only toggle on, the filtered list holds
  exactly the cookies, of those that pass the search and domain filters, that have an
  expiration date other than 0 that is strictly before now, each as often as it
  occurs. A cookie with no expiration date is left out, and so is one whose expiration
  date is the number 0.
\<close>

theorem expired_only:
  assumes "showExpiredOnly v"
  shows "mset (filteredCookies h now v cookies)
           = filter_mset (\<lambda>c. spec_expired now c \<and> expirationDate c \<noteq> Some 0)
               (mset (domainFilter (selectedDomain v) (searchFilter h (searchTerm v) cookies)))"
proof -
  have "(case expirationDate c of None \<Rightarrow> False | Some e \<Rightarrow> e \<noteq> 0 \<and> e < now)
          = (spec_expired now c \<and> expirationDate c \<noteq> Some 0)" for c
    by (auto simp: spec_expired_def split: option.splits)
  then show ?thesis
    using assms by (simp add: filteredCookies_def mset_js_sort expiredFilter_def)
qed

theorem expired_only_witness:
  "showExpiredOnly expired_view
   \<and> mset (filteredCookies sample_host 1000 expired_view
            [mk_cookie ''a'' ''x.com'' (Some 900), mk_cookie ''b'' ''y.com'' None])
       = {#mk_cookie ''a'' ''x.com'' (Some 900)#}
   \<and> filteredCookies sample_host 1000 expired_view
        [mk_cookie ''a'' ''x.com'' (Some 900), mk_cookie ''b'' ''y.com'' None]
       = [mk_cookie ''a'' ''x.com'' (Some 900)]"
proof -
  have h: "showExpiredOnly expired_view" by (simp add: expired_view_def)
  have e: "filteredCookies sample_host 1000 expired_view
        [mk_cookie ''a'' ''x.com'' (Some 900), mk_cookie ''b'' ''y.com'' None]
       = [mk_cookie ''a'' ''x.com'' (Some 900)]"
    by (simp add: mk_cookie_def filteredCookies_def expired_view_def
      expiredFilter_def domainFilter_def searchFilter_def)
  show ?thesis
    using h e expired_only [OF h, of sample_host 1000
        "[mk_cookie ''a'' ''x.com'' (Some 900), mk_cookie ''b'' ''y.com'' None]"]
    by simp
qed

text \<open>
  C4 as stated fails for a cookie whose expiration date is 0: the date is strictly
  before now = 1700000000, and with the toggle on the cookie is not in the filtered
  list.
\<close>

theorem expired_epoch_counterexample:
  "spec_expired 1700000000 (mk_cookie ''a'' ''x.com'' (Some 0))
   \<and> showExpiredOnly expired_view
   \<and> filteredCookies sample_host 1700000000 expired_view [mk_cookie ''a'' ''x.com'' (Some 0)] = []"
  by (simp add: spec_expired_def mk_cookie_def filteredCookies_def expired_view_def
      expiredFilter_def domainFilter_def searchFilter_def)

subsection \<open>Ascending and descending\<close>

lemma field_less_irrefl: "\<not> field_less f a a"
  by (cases f) (auto simp: str_less_irrefl split: option.splits)

lemma field_less_trans: "field_less f a b \<Longrightarrow> field_less f b c \<Longrightarrow> field_less f a c"
  by (cases f) (auto intro: str_less_trans split: option.splits)

lemma field_less_asym: "field_less f a b \<Longrightarrow> \<not> field_less f b a"
  using field_less_trans field_less_irrefl by blast

lemma field_less_total:
  assumes "field f a \<noteq> field f b" and "field f a \<noteq> Undefined" and "field f b \<noteq> Undefined"
  shows "field_less f a b \<or> field_less f b a"
  using assms by (cases f) (auto simp: str_less_total split: option.splits)

lemma compare_asc: "(compareCookies f asc a b \<le> 0) = (\<not> field_less f b a)"
  by (simp add: compareCookies_def)

lemma compare_desc: "(compareCookies f desc a b \<le> 0) = (\<not> field_less f a b)"
  using field_less_asym [of f a b] by (auto simp: compareCookies_def)

lemma no_ties_distinct: "no_ties f xs \<Longrightarrow> distinct xs"
  unfolding no_ties_def distinct_conv_nth using field_less_irrefl by metis

lemma no_ties_total:
  assumes "no_ties f xs" "a \<in> set xs" "b \<in> set xs" "a \<noteq> b"
  shows "field_less f a b \<or> field_less f b a"
proof -
  obtain i j where "i < length xs" "xs ! i = a" "j < length xs" "xs ! j = b"
    using assms(2,3) by (auto simp: in_set_conv_nth)
  moreover from this assms(4) have "i \<noteq> j" by auto
  ultimately show ?thesis using assms(1) unfolding no_ties_def by blast
qed

text \<open>With no ties, the two sorts are the reverse of each other.\<close>

lemma sort_asc_rev_desc:
  assumes "no_ties f xs"
  shows "js_sort (compareCookies f asc) xs = rev (js_sort (compareCookies f desc) xs)"
proof -
  let ?lt = "field_less f"
  have d: "distinct xs" using assms by (rule no_ties_distinct)
  have tot: "\<forall>a \<in> set xs. \<forall>b \<in> set xs. a \<noteq> b \<longrightarrow> ?lt a b \<or> ?lt b a"
    using no_ties_total [OF assms] by blast
  have a: "sorted_wrt ?lt (js_sort (compareCookies f asc) xs)"
    by (rule js_sort_strict [OF field_less_trans compare_asc d tot])
  have "sorted_wrt (\<lambda>a b. ?lt b a) (js_sort (compareCookies f desc) xs)"
  proof (rule js_sort_strict [OF _ _ d])
    show "\<forall>a \<in> set xs. \<forall>b \<in> set xs. a \<noteq> b \<longrightarrow> ?lt b a \<or> ?lt a b"
      using tot by blast
  qed (auto intro: field_less_trans simp: compare_desc)
  then have b: "sorted_wrt ?lt (rev (js_sort (compareCookies f desc) xs))"
    by (simp add: sorted_wrt_rev)
  have s: "set (js_sort (compareCookies f asc) xs) = set (rev (js_sort (compareCookies f desc) xs))"
    by (simp add: set_js_sort)
  show ?thesis
    using strict_sorted_unique [of ?lt, OF field_less_irrefl field_less_trans a b s] .
qed

lemma no_ties_sublist:
  assumes "no_ties f xs"
  shows "no_ties f (filter P xs)"
proof -
  have d: "distinct (filter P xs)" using no_ties_distinct [OF assms] by simp
  show ?thesis
    unfolding no_ties_def
  proof (intro allI impI)
    fix i j assume "i < length (filter P xs)" "j < length (filter P xs)" "i \<noteq> j"
    then have "filter P xs ! i \<in> set xs" "filter P xs ! j \<in> set xs"
      "filter P xs ! i \<noteq> filter P xs ! j"
      using d by (auto simp: nth_eq_iff_index_eq dest: nth_mem)
    then show "field_less f (filter P xs ! i) (filter P xs ! j)
             \<or> field_less f (filter P xs ! j) (filter P xs ! i)"
      using no_ties_total [OF assms] by blast
  qed
qed

lemma no_ties_filters:
  assumes "no_ties f xs"
  shows "no_ties f (expiredFilter e now (domainFilter d (searchFilter h s xs)))"
  using assms by (simp add: expiredFilter_def domainFilter_def searchFilter_def no_ties_sublist)

text \<open>Different values of the field, none of them missing, are never tied.\<close>

lemma no_ties_fields:
  assumes "distinct (map (field f) cookies)"
    and "length cookies \<le> 1 \<or> Undefined \<notin> field f ` set cookies"
  shows "no_ties f cookies"
  unfolding no_ties_def
proof (intro allI impI)
  fix i j assume ij: "i < length cookies" "j < length cookies" "i \<noteq> j"
  have u: "Undefined \<notin> field f ` set cookies"
    using assms(2) ij by auto
  have "cookies ! i \<in> set cookies" "cookies ! j \<in> set cookies"
    using ij by simp_all
  then have "field f (cookies ! i) \<noteq> Undefined" "field f (cookies ! j) \<noteq> Undefined"
    using u by (metis imageI)+
  moreover have "field f (cookies ! i) \<noteq> field f (cookies ! j)"
    using assms(1) ij by (simp add: distinct_conv_nth)
  ultimately show "field_less f (cookies ! i) (cookies ! j) \<or> field_less f (cookies ! j) (cookies ! i)"
    using field_less_total by blast
qed

text \<open>
  The same for any field: different values, none of them missing when there are two
  cookies or more.
\<close>

lemma ascending_reverses_descending_any_field:
  assumes "distinct (map (field (sortField v)) cookies)"
    and "length cookies \<le> 1 \<or> Undefined \<notin> field (sortField v) ` set cookies"
  shows "filteredCookies h now (v\<lparr>sortDirection := asc\<rparr>) cookies
           = rev (filteredCookies h now (v\<lparr>sortDirection := desc\<rparr>) cookies)"
  using sort_asc_rev_desc [OF no_ties_filters [OF no_ties_fields [OF assms]]]
  by (simp add: filteredCookies_def)

text \<open>The sort field of the dashboard is always the name or the value.\<close>

lemma reachable_sortField:
  "reachable v \<Longrightarrow> sortField v = K_name \<or> sortField v = K_value"
  by (induction rule: reachable.induct) (auto simp: initial_view_def setSortField_def)

lemma name_or_value_defined:
  assumes "sortField v = K_name \<or> sortField v = K_value"
  shows "Undefined \<notin> field (sortField v) ` set cookies"
  using assms by auto

text \<open>
  C6. In every state the dashboard can be in, for every list of cookies no two of
  which have an equal value of the selected sort field, the list shown with ascending
  order is the exact reverse of the list shown with descending order, whatever the
  filters. The selected sort field is the name or the value: the view starts with the
  name, and \<open>setSortField\<close> is called with these two only.
\<close>

theorem ascending_reverses_descending:
  assumes "reachable v"
    and "distinct (map (field (sortField v)) cookies)"
  shows "filteredCookies h now (v\<lparr>sortDirection := asc\<rparr>) cookies
           = rev (filteredCookies h now (v\<lparr>sortDirection := desc\<rparr>) cookies)"
proof -
  have "Undefined \<notin> field (sortField v) ` set cookies"
    using reachable_sortField [OF assms(1)] by (rule name_or_value_defined)
  then show ?thesis
    using assms(2) by (intro ascending_reverses_descending_any_field) simp_all
qed

theorem ascending_reverses_descending_witness:
  "reachable (setSortField K_value (setSortField K_name initial_view))
   \<and> sortField (setSortField K_value (setSortField K_name initial_view)) = K_value
   \<and> distinct (map (field K_value) [valued_cookie ''a'' ''2'',
                                      valued_cookie ''b'' ''1''])
   \<and> filteredCookies sample_host 0
        (setSortField K_value (setSortField K_name initial_view)\<lparr>sortDirection := asc\<rparr>)
        [valued_cookie ''a'' ''2'', valued_cookie ''b'' ''1'']
       = [valued_cookie ''b'' ''1'', valued_cookie ''a'' ''2'']
   \<and> filteredCookies sample_host 0
        (setSortField K_value (setSortField K_name initial_view)\<lparr>sortDirection := desc\<rparr>)
        [valued_cookie ''a'' ''2'', valued_cookie ''b'' ''1'']
       = [valued_cookie ''a'' ''2'', valued_cookie ''b'' ''1'']"
proof -
  let ?v = "setSortField K_value (setSortField K_name initial_view)"
  let ?cs = "[valued_cookie ''a'' ''2'', valued_cookie ''b'' ''1'']"
  have h1: "reachable ?v"
    by (intro reachable.click_value reachable.click_name reachable.start)
  have f: "sortField ?v = K_value"
    by (simp add: setSortField_def initial_view_def)
  have h2: "distinct (map (field (sortField ?v)) ?cs)"
    by (simp add: f valued_cookie_def mk_cookie_def)
  have d: "filteredCookies sample_host 0 (?v\<lparr>sortDirection := desc\<rparr>) ?cs = ?cs"
    by (simp add: setSortField_def initial_view_def valued_cookie_def mk_cookie_def
      filteredCookies_def expiredFilter_def domainFilter_def searchFilter_def compareCookies_def)
  have "filteredCookies sample_host 0 (?v\<lparr>sortDirection := asc\<rparr>) ?cs
          = rev (filteredCookies sample_host 0 (?v\<lparr>sortDirection := desc\<rparr>) ?cs)"
    by (rule ascending_reverses_descending [OF h1 h2])
  with h1 h2 f d show ?thesis by simp
qed

subsection \<open>The list of domains\<close>

lemma set_uniq: "set (uniq xs) = set xs"
  by (induction xs) auto

lemma distinct_uniq: "distinct (uniq xs)"
  by (induction xs) (auto simp: set_uniq)

text \<open>
  The arrow function, were it called, would return what the specification describes as
  the domain options: \<open>all\<close>, then the domains of the cookies, each once, in strictly
  ascending order of code units.
\<close>

lemma domainsFunction_all_then_sorted:
  "hd (domainsFunction cookies) = ''all''
   \<and> sorted_wrt str_less (tl (domainsFunction cookies))
   \<and> set (tl (domainsFunction cookies)) = domain ` set cookies
   \<and> set (domainsFunction cookies) = insert ''all'' (domain ` set cookies)"
  by (simp add: domainsFunction_def sorted_default_sort distinct_uniq set_js_sort set_uniq)

text \<open>
  C8. The claim does not hold of the code: the derived value \<open>domains\<close> is the arrow
  function, not the list it would return, and the template iterates over it without
  calling it. For one cookie of domain \<open>example.com\<close> the dashboard has no domain option
  at all, where the claim has the two options \<open>all\<close> and \<open>example.com\<close>, which is what the
  function returns when called; and so it is for every list of cookies.
\<close>

theorem domain_options_not_rendered:
  "domainOptions [mk_cookie ''a'' ''example.com'' None] = []
   \<and> domainsFunction [mk_cookie ''a'' ''example.com'' None] = [''all'', ''example.com'']
   \<and> domainOptions cookies = []"
  by (simp add: domainOptions_def domains_def each_items_def domainsFunction_def mk_cookie_def)

end
